theory Spec2Isabelle
  imports Main
begin

section \<open>Python strings\<close>

text \<open>
  A Python \<open>str\<close> is a sequence of Unicode code points, so a character is modelled by
  its code point and a string by the list of its code points. A literal of the source is
  written \<open>pystr ''...''\<close>.
\<close>

type_synonym pychar = nat
type_synonym pystr = "pychar list"

definition pystr :: "string \<Rightarrow> pystr" where
  "pystr s = map of_char s"

text \<open>
  Two tables of the Python runtime's Unicode database are used by the source and are not
  part of the repository: which code points above U+007F are alphanumeric (they decide
  \<open>\w\<close> of the \<open>re\<close> module) and how \<open>str.lower\<close> treats a string that has such code
  points. Both are parameters of the functions that depend on them, written \<open>ua\<close> and
  \<open>ul\<close>. On ASCII the behaviour is written out.
\<close>

definition ascii_alnum :: "pychar \<Rightarrow> bool" where
  "ascii_alnum c = ((48 \<le> c \<and> c \<le> 57) \<or> (65 \<le> c \<and> c \<le> 90) \<or> (97 \<le> c \<and> c \<le> 122))"

text \<open>\<open>\w\<close> for a \<open>str\<close> pattern: alphanumeric (in the Unicode sense) or the underscore.\<close>

definition is_word :: "(pychar \<Rightarrow> bool) \<Rightarrow> pychar \<Rightarrow> bool" where
  "is_word ua c = (if c < 128 then ascii_alnum c \<or> c = 95 else ua c)"

definition lower_ascii :: "pychar \<Rightarrow> pychar" where
  "lower_ascii c = (if 65 \<le> c \<and> c \<le> 90 then c + 32 else c)"

text \<open>\<open>str.lower()\<close>: on a pure ASCII string the letters A-Z are shifted; any other
  string is lower-cased by the runtime's table.\<close>

definition py_lower :: "(pystr \<Rightarrow> pystr) \<Rightarrow> pystr \<Rightarrow> pystr" where
  "py_lower ul s = (if list_all (\<lambda>c. c < 128) s then map lower_ascii s else ul s)"

text \<open>The rows U+0080 .. U+00FF of the two tables (Latin-1 Supplement), used where a
  concrete table is needed; code points above U+00FF are not tabulated here.\<close>

definition latin1_alnum :: "pychar \<Rightarrow> bool" where
  "latin1_alnum c = (c \<in> {170, 178, 179, 181, 185, 186, 188, 189, 190}
     \<or> (192 \<le> c \<and> c \<le> 214) \<or> (216 \<le> c \<and> c \<le> 246) \<or> (248 \<le> c \<and> c \<le> 255))"

definition latin1_lower :: "pystr \<Rightarrow> pystr" where
  "latin1_lower s = map (\<lambda>c. if (65 \<le> c \<and> c \<le> 90) \<or> (192 \<le> c \<and> c \<le> 222 \<and> c \<noteq> 215)
                             then c + 32 else c) s"

text \<open>\<open>needle in hay\<close> on strings: \<open>needle\<close> occurs as a contiguous run.\<close>

fun starts_with :: "pystr \<Rightarrow> pystr \<Rightarrow> bool" where
  "starts_with [] s = True"
| "starts_with (n # ns) [] = False"
| "starts_with (n # ns) (c # cs) = (n = c \<and> starts_with ns cs)"

fun py_in :: "pystr \<Rightarrow> pystr \<Rightarrow> bool" where
  "py_in needle [] = (needle = [])"
| "py_in needle (c # cs) = (starts_with needle (c # cs) \<or> py_in needle cs)"

text \<open>\<open>sep.join(parts)\<close>.\<close>

fun py_join :: "pystr \<Rightarrow> pystr list \<Rightarrow> pystr" where
  "py_join sep [] = []"
| "py_join sep [p] = p"
| "py_join sep (p # q # ps) = p @ sep @ py_join sep (q # ps)"

section \<open>The fragment of \<open>re\<close> used by the validator\<close>

text \<open>
  The pattern of \<open>_validate_exe_name\<close> is a sequence of atoms: the anchors \<open>^\<close> and
  \<open>$\<close>, a literal character, and a repeated character set \<open>[...]+\<close>. A matcher state is
  the position reached and the rest of the string. \<open>match_atom\<close> lists the states an
  atom can reach, longest repetition first as the backtracking engine tries them;
  \<open>re.match\<close> returns a match object (truthy) iff some choice matches every atom.
  Without \<open>re.MULTILINE\<close>, \<open>^\<close> matches at position 0 only and \<open>$\<close> matches at the
  end of the string and also just before a line feed that ends the string.
  With \<open>re.IGNORECASE\<close> a literal matches a character with the same lower case; for the
  literals of this pattern (\<open>.\<close>, \<open>e\<close>, \<open>x\<close>) only ASCII characters have that lower case.
  A set made of \<open>\w\<close> and uncased literals is not affected by the flag.
\<close>

datatype atom =
    AT_BEGINNING
  | AT_END
  | LITERAL pychar
  | MAX_REPEAT_IN "pychar \<Rightarrow> bool"

definition literal_matches :: "bool \<Rightarrow> pychar \<Rightarrow> pychar \<Rightarrow> bool" where
  "literal_matches ignorecase lit c =
     (if ignorecase then lower_ascii c = lower_ascii lit else c = lit)"

fun match_atom :: "bool \<Rightarrow> atom \<Rightarrow> nat \<times> pystr \<Rightarrow> (nat \<times> pystr) list" where
  "match_atom ic AT_BEGINNING (pos, s) = (if pos = 0 then [(pos, s)] else [])"
| "match_atom ic AT_END (pos, s) = (if s = [] \<or> s = [10] then [(pos, s)] else [])"
| "match_atom ic (LITERAL lit) (pos, s) =
     (case s of [] \<Rightarrow> []
      | c # cs \<Rightarrow> if literal_matches ic lit c then [(pos + 1, cs)] else [])"
| "match_atom ic (MAX_REPEAT_IN cls) (pos, s) =
     map (\<lambda>k. (pos + k, drop k s)) (rev [1..<Suc (length (takeWhile cls s))])"

fun match_all :: "bool \<Rightarrow> atom list \<Rightarrow> nat \<times> pystr \<Rightarrow> bool" where
  "match_all ic [] st = True"
| "match_all ic (a # as) st = list_ex (match_all ic as) (match_atom ic a st)"

definition re_match :: "atom list \<Rightarrow> pystr \<Rightarrow> bool \<Rightarrow> bool" where
  "re_match pattern string ignorecase = match_all ignorecase pattern (0, string)"

section \<open>RegistryBlocker: the validator\<close>

text \<open>The set \<open>[\w\-\.]\<close> of the pattern.\<close>

definition name_char :: "(pychar \<Rightarrow> bool) \<Rightarrow> pychar \<Rightarrow> bool" where
  "name_char ua c = (is_word ua c \<or> c = 45 \<or> c = 46)"

text \<open>\<open>re.match(r'^[\w\-\.]+\.exe$', exe_name, re.IGNORECASE)\<close>, as a boolean.\<close>

definition validate_exe_name :: "(pychar \<Rightarrow> bool) \<Rightarrow> pystr \<Rightarrow> bool" where
  "validate_exe_name ua exe_name =
     re_match [AT_BEGINNING, MAX_REPEAT_IN (name_char ua),
               LITERAL 46, LITERAL 101, LITERAL 120, LITERAL 101, AT_END]
              exe_name True"

section \<open>The registry, as the source uses it\<close>

text \<open>
  \<open>winreg\<close> is the operating system's interface, not code of the repository. The model
  keeps what the source observes of it: keys under \<open>HKEY_LOCAL_MACHINE\<close> addressed by
  their path, each with named values and sub-keys, and the rights the caller's token is
  granted (an elevated process has \<open>FullAccess\<close>). A call fails with
  \<open>FileNotFoundError\<close> when the key or value is absent and with \<open>PermissionError\<close>
  when a requested right is not granted; \<open>DeleteKey\<close> removes a key together with its
  values and refuses (access denied) a key that has sub-keys. \<open>OtherOSError\<close> stands for
  every other \<open>OSError\<close>; here it is raised for a handle whose key is gone. Key and
  value names are compared as the strings they are.
\<close>

datatype oserror = FileNotFoundError | PermissionError | OtherOSError

datatype regdata = RegStr pystr | RegInt int | RegBytes "nat list" | RegMulti "pystr list" | RegNone

record regvalue =
  vtype :: nat
  vdata :: regdata

record regkey =
  kvalues :: "pystr \<rightharpoonup> regvalue"
  ksubkeys :: "pystr list"

datatype access = Denied | ReadOnly | FullAccess

record registry =
  hklm :: "pystr \<rightharpoonup> regkey"
  token :: access

datatype sam = KEY_READ | KEY_ALL_ACCESS

type_synonym hkey = "pystr \<times> sam"

definition REG_SZ :: nat where
  "REG_SZ = 1"

fun granted :: "access \<Rightarrow> sam \<Rightarrow> bool" where
  "granted FullAccess want = True"
| "granted ReadOnly want = (want = KEY_READ)"
| "granted Denied want = False"

definition OpenKey :: "registry \<Rightarrow> pystr \<Rightarrow> sam \<Rightarrow> oserror + hkey" where
  "OpenKey r path want =
     (case hklm r path of
        None \<Rightarrow> Inl FileNotFoundError
      | Some k \<Rightarrow> if granted (token r) want then Inr (path, want) else Inl PermissionError)"

definition CreateKeyEx :: "registry \<Rightarrow> pystr \<Rightarrow> sam \<Rightarrow> oserror + registry \<times> hkey" where
  "CreateKeyEx r path want =
     (case hklm r path of
        Some k \<Rightarrow> if granted (token r) want then Inr (r, (path, want)) else Inl PermissionError
      | None \<Rightarrow>
          if token r \<noteq> FullAccess then Inl PermissionError
          else Inr (r\<lparr>hklm := (hklm r)(path \<mapsto> \<lparr>kvalues = Map.empty, ksubkeys = []\<rparr>)\<rparr>,
                    (path, want)))"

definition SetValueEx :: "registry \<Rightarrow> hkey \<Rightarrow> pystr \<Rightarrow> nat \<Rightarrow> regdata \<Rightarrow> oserror + registry" where
  "SetValueEx r key value_name typ val =
     (case hklm r (fst key) of
        None \<Rightarrow> Inl OtherOSError
      | Some k \<Rightarrow>
          if snd key \<noteq> KEY_ALL_ACCESS then Inl PermissionError
          else Inr (r\<lparr>hklm := (hklm r)(fst key \<mapsto>
                      k\<lparr>kvalues := (kvalues k)(value_name \<mapsto> \<lparr>vtype = typ, vdata = val\<rparr>)\<rparr>)\<rparr>))"

definition DeleteValue :: "registry \<Rightarrow> hkey \<Rightarrow> pystr \<Rightarrow> oserror + registry" where
  "DeleteValue r key value_name =
     (case hklm r (fst key) of
        None \<Rightarrow> Inl OtherOSError
      | Some k \<Rightarrow>
          if snd key \<noteq> KEY_ALL_ACCESS then Inl PermissionError
          else case kvalues k value_name of
                 None \<Rightarrow> Inl FileNotFoundError
               | Some v \<Rightarrow> Inr (r\<lparr>hklm := (hklm r)(fst key \<mapsto>
                                   k\<lparr>kvalues := (kvalues k)(value_name := None)\<rparr>)\<rparr>))"

definition QueryValueEx :: "registry \<Rightarrow> hkey \<Rightarrow> pystr \<Rightarrow> oserror + regdata \<times> nat" where
  "QueryValueEx r key value_name =
     (case hklm r (fst key) of
        None \<Rightarrow> Inl OtherOSError
      | Some k \<Rightarrow>
          (case kvalues k value_name of
             None \<Rightarrow> Inl FileNotFoundError
           | Some v \<Rightarrow> Inr (vdata v, vtype v)))"

definition DeleteKey :: "registry \<Rightarrow> pystr \<Rightarrow> oserror + registry" where
  "DeleteKey r path =
     (case hklm r path of
        None \<Rightarrow> Inl FileNotFoundError
      | Some k \<Rightarrow>
          if token r \<noteq> FullAccess \<or> ksubkeys k \<noteq> [] then Inl PermissionError
          else Inr (r\<lparr>hklm := (hklm r)(path := None)\<rparr>))"

text \<open>\<open>CloseKey\<close> releases the handle and leaves the registry as it is.\<close>

definition CloseKey :: "registry \<Rightarrow> hkey \<Rightarrow> registry" where
  "CloseKey r key = r"

section \<open>RegistryBlocker\<close>

definition IFEO_PATH :: pystr where
  "IFEO_PATH = pystr ''SOFTWARE'' @ [92] @ pystr ''Microsoft'' @ [92] @ pystr ''Windows NT''
     @ [92] @ pystr ''CurrentVersion'' @ [92] @ pystr ''Image File Execution Options''"

definition BLOCKER_CMD :: pystr where
  "BLOCKER_CMD = pystr ''nul''"

definition Debugger :: pystr where
  "Debugger = pystr ''Debugger''"

text \<open>\<open>f"{IFEO_PATH}\\{exe_name}"\<close>\<close>

definition key_path :: "pystr \<Rightarrow> pystr" where
  "key_path exe_name = IFEO_PATH @ [92] @ exe_name"

text \<open>\<open>_get_registry_access\<close>: the 64-bit view flag it adds selects the one view that
  is modelled.\<close>

definition get_registry_access :: "bool \<Rightarrow> sam" where
  "get_registry_access write = (if \<not> write then KEY_READ else KEY_ALL_ACCESS)"

text \<open>
  The second component of each \<open>Tuple[bool, str]\<close> the source returns is one of seven
  formatted texts. Each is a constructor here, carrying what the text is formatted with:
  \<^item> \<open>InvalidName n\<close>: the name was refused by the validator (lines 149, 187);
  \<^item> \<open>Blocked n\<close>, \<open>Unblocked n\<close>: done (lines 166, 216);
  \<^item> \<open>NoAdminBlock n\<close>, \<open>NoAdminUnblock n\<close>: no administrator rights (lines 171, 219);
  \<^item> \<open>BlockError n e\<close>, \<open>UnblockError n e\<close>: any other exception \<open>e\<close> (lines 175, 223).
\<close>

datatype message =
    InvalidName pystr
  | Blocked pystr
  | NoAdminBlock pystr
  | BlockError pystr oserror
  | Unblocked pystr
  | NoAdminUnblock pystr
  | UnblockError pystr oserror

text \<open>
  \<open>block_executable\<close>. The registry is threaded through; when an exception is raised the
  registry stays as it was at that point and the handlers at the end of the source
  choose the message.
\<close>

definition block_executable ::
  "(pychar \<Rightarrow> bool) \<Rightarrow> registry \<Rightarrow> pystr \<Rightarrow> registry \<times> bool \<times> message" where
  "block_executable ua r exe_name =
     (if \<not> validate_exe_name ua exe_name then (r, False, InvalidName exe_name)
      else
        (case CreateKeyEx r (key_path exe_name) (get_registry_access True) of
           Inl PermissionError \<Rightarrow> (r, False, NoAdminBlock exe_name)
         | Inl e \<Rightarrow> (r, False, BlockError exe_name e)
         | Inr (r1, key) \<Rightarrow>
             (case SetValueEx r1 key Debugger REG_SZ (RegStr BLOCKER_CMD) of
                Inl PermissionError \<Rightarrow> (CloseKey r1 key, False, NoAdminBlock exe_name)
              | Inl e \<Rightarrow> (CloseKey r1 key, False, BlockError exe_name e)
              | Inr r2 \<Rightarrow> (CloseKey r2 key, True, Blocked exe_name))))"

text \<open>
  \<open>unblock_executable\<close>. \<open>unblock_delete_value\<close> is the first inner \<open>try\<close> of the source
  (open the key, delete the value): \<open>Inr\<close> when control reaches the statement after it,
  \<open>Inl\<close> with the registry at that point when an exception leaves it.
\<close>

definition unblock_delete_value :: "registry \<Rightarrow> pystr \<Rightarrow> registry \<times> oserror + registry" where
  "unblock_delete_value r path =
     (case OpenKey r path (get_registry_access True) of
        Inl FileNotFoundError \<Rightarrow> Inr r
      | Inl e \<Rightarrow> Inl (r, e)
      | Inr key \<Rightarrow>
          (case DeleteValue r key Debugger of
             Inl FileNotFoundError \<Rightarrow> Inr (CloseKey r key)
           | Inl e \<Rightarrow> Inl (CloseKey r key, e)
           | Inr r1 \<Rightarrow> Inr (CloseKey r1 key)))"

definition unblock_executable ::
  "(pychar \<Rightarrow> bool) \<Rightarrow> registry \<Rightarrow> pystr \<Rightarrow> registry \<times> bool \<times> message" where
  "unblock_executable ua r exe_name =
     (if \<not> validate_exe_name ua exe_name then (r, False, InvalidName exe_name)
      else
        (case unblock_delete_value r (key_path exe_name) of
           Inl (r1, PermissionError) \<Rightarrow> (r1, False, NoAdminUnblock exe_name)
         | Inl (r1, e) \<Rightarrow> (r1, False, UnblockError exe_name e)
         | Inr r1 \<Rightarrow>
             (case DeleteKey r1 (key_path exe_name) of
                Inl e \<Rightarrow> (r1, True, Unblocked exe_name)
              | Inr r2 \<Rightarrow> (r2, True, Unblocked exe_name))))"

text \<open>\<open>is_blocked\<close> opens the key for reading, queries the value and closes the key; none
  of these calls writes, so no registry is returned.\<close>

definition is_blocked :: "(pychar \<Rightarrow> bool) \<Rightarrow> registry \<Rightarrow> pystr \<Rightarrow> bool" where
  "is_blocked ua r exe_name =
     (if \<not> validate_exe_name ua exe_name then False
      else
        (case OpenKey r (key_path exe_name) (get_registry_access False) of
           Inl FileNotFoundError \<Rightarrow> False
         | Inl e \<Rightarrow> False
         | Inr key \<Rightarrow>
             (case QueryValueEx r key Debugger of
                Inl FileNotFoundError \<Rightarrow> False
              | Inl e \<Rightarrow> False
              | Inr (val, typ) \<Rightarrow> val = RegStr BLOCKER_CMD)))"

text \<open>The loops of \<open>block_all\<close> and \<open>unblock_all\<close>, with the two accumulators of the
  source.\<close>

fun block_all_loop ::
  "(pychar \<Rightarrow> bool) \<Rightarrow> registry \<Rightarrow> pystr list \<Rightarrow> bool \<Rightarrow> message list
     \<Rightarrow> registry \<times> bool \<times> message list" where
  "block_all_loop ua r [] all_success messages = (r, all_success, messages)"
| "block_all_loop ua r (exe # exes) all_success messages =
     (case block_executable ua r exe of
        (r', success, msg) \<Rightarrow>
          block_all_loop ua r' exes (if \<not> success then False else all_success) (messages @ [msg]))"

definition block_all ::
  "(pychar \<Rightarrow> bool) \<Rightarrow> registry \<Rightarrow> pystr list \<Rightarrow> registry \<times> bool \<times> message list" where
  "block_all ua r executables = block_all_loop ua r executables True []"

fun unblock_all_loop ::
  "(pychar \<Rightarrow> bool) \<Rightarrow> registry \<Rightarrow> pystr list \<Rightarrow> bool \<Rightarrow> message list
     \<Rightarrow> registry \<times> bool \<times> message list" where
  "unblock_all_loop ua r [] all_success messages = (r, all_success, messages)"
| "unblock_all_loop ua r (exe # exes) all_success messages =
     (case unblock_executable ua r exe of
        (r', success, msg) \<Rightarrow>
          unblock_all_loop ua r' exes (if \<not> success then False else all_success) (messages @ [msg]))"

definition unblock_all ::
  "(pychar \<Rightarrow> bool) \<Rightarrow> registry \<Rightarrow> pystr list \<Rightarrow> registry \<times> bool \<times> message list" where
  "unblock_all ua r executables = unblock_all_loop ua r executables True []"

text \<open>\<open>get_status\<close>: the dict comprehension inserts one entry per element, a later
  duplicate replacing the earlier entry.\<close>

definition get_status :: "(pychar \<Rightarrow> bool) \<Rightarrow> registry \<Rightarrow> pystr list \<Rightarrow> (pystr \<rightharpoonup> bool)" where
  "get_status ua r executables =
     foldl (\<lambda>d exe. d(exe \<mapsto> is_blocked ua r exe)) Map.empty executables"

definition is_any_blocked :: "(pychar \<Rightarrow> bool) \<Rightarrow> registry \<Rightarrow> pystr list \<Rightarrow> bool" where
  "is_any_blocked ua r executables = list_ex (\<lambda>exe. is_blocked ua r exe) executables"

definition get_blocked_count :: "(pychar \<Rightarrow> bool) \<Rightarrow> registry \<Rightarrow> pystr list \<Rightarrow> int" where
  "get_blocked_count ua r executables =
     sum_list (map (\<lambda>exe. 1) (filter (\<lambda>exe. is_blocked ua r exe) executables))"

section \<open>ProcessKiller: the classifier\<close>

text \<open>The dictionary \<open>proc.info\<close> of a process: a field is \<open>None\<close> when the process
  did not disclose it.\<close>

record proc_info =
  info_pid :: "nat option"
  info_name :: "pystr option"
  info_exe :: "pystr option"
  info_cmdline :: "pystr list option"

definition YANDEX_INDICATORS :: "pystr list" where
  "YANDEX_INDICATORS = [pystr ''yandex'', pystr ''yabrowser'', pystr ''yandexbrowser'']"

text \<open>\<open>x or default\<close> for an optional string or list: \<open>None\<close> and the empty value are
  both falsy.\<close>

definition or_else :: "'a list option \<Rightarrow> 'a list \<Rightarrow> 'a list" where
  "or_else x d = (case x of None \<Rightarrow> d | Some v \<Rightarrow> if v = [] then d else v)"

definition is_yandex_browser :: "(pystr \<Rightarrow> pystr) \<Rightarrow> proc_info \<Rightarrow> bool" where
  "is_yandex_browser ul info =
     (let name = py_lower ul (or_else (info_name info) []);
          exe = py_lower ul (or_else (info_exe info) []);
          cmdline = or_else (info_cmdline info) []
      in if list_ex (\<lambda>indicator. py_in indicator exe) YANDEX_INDICATORS then True
         else if name = pystr ''browser.exe''
                 \<and> list_ex (\<lambda>indicator. py_in indicator (py_lower ul (py_join (pystr '' '') cmdline)))
                      YANDEX_INDICATORS
              then True
         else False)"

section \<open>What the properties are stated with\<close>

text \<open>The character set \<open>[A-Za-z0-9_.-]\<close>.\<close>

definition spec_class :: "pychar \<Rightarrow> bool" where
  "spec_class c = (ascii_alnum c \<or> c = 95 \<or> c = 46 \<or> c = 45)"

text \<open>A name that is one or more characters of \<open>cls\<close> followed by \<open>.exe\<close> in any
  letter case, and nothing else.\<close>

definition exe_name_over :: "(pychar \<Rightarrow> bool) \<Rightarrow> pystr \<Rightarrow> bool" where
  "exe_name_over cls n =
     (4 < length n \<and> list_all cls (take (length n - 4) n)
      \<and> map lower_ascii (drop (length n - 4) n) = pystr ''.exe'')"

text \<open>The container of a name exists, the marker value exists in it and its data is the
  exact marker.\<close>

definition marker_present :: "registry \<Rightarrow> pystr \<Rightarrow> bool" where
  "marker_present r n =
     (case hklm r (key_path n) of
        None \<Rightarrow> False
      | Some k \<Rightarrow> (case kvalues k Debugger of
                     None \<Rightarrow> False
                   | Some v \<Rightarrow> vdata v = RegStr BLOCKER_CMD))"

text \<open>Running an operation on each target in turn, from left to right, each on the
  registry the previous one left: the outcomes, and the registry at the end.\<close>

fun attempts ::
  "(registry \<Rightarrow> pystr \<Rightarrow> registry \<times> bool \<times> message) \<Rightarrow> registry \<Rightarrow> pystr list
     \<Rightarrow> (bool \<times> message) list" where
  "attempts op r [] = []"
| "attempts op r (x # xs) = snd (op r x) # attempts op (fst (op r x)) xs"

fun registry_after ::
  "(registry \<Rightarrow> pystr \<Rightarrow> registry \<times> bool \<times> message) \<Rightarrow> registry \<Rightarrow> pystr list \<Rightarrow> registry" where
  "registry_after op r [] = r"
| "registry_after op r (x # xs) = registry_after op (fst (op r x)) xs"

text \<open>The target a message reports on.\<close>

fun target :: "message \<Rightarrow> pystr" where
  "target (InvalidName n) = n"
| "target (Blocked n) = n"
| "target (NoAdminBlock n) = n"
| "target (BlockError n e) = n"
| "target (Unblocked n) = n"
| "target (NoAdminUnblock n) = n"
| "target (UnblockError n e) = n"

text \<open>\<open>needle\<close> occurs in \<open>hay\<close>.\<close>

definition occurs_in :: "pystr \<Rightarrow> pystr \<Rightarrow> bool" where
  "occurs_in needle hay = (\<exists>before after. hay = before @ needle @ after)"

text \<open>Registries and processes for the concrete instances below.\<close>

definition blocked_key :: regkey where
  "blocked_key = \<lparr>kvalues = [Debugger \<mapsto> \<lparr>vtype = REG_SZ, vdata = RegStr BLOCKER_CMD\<rparr>], ksubkeys = []\<rparr>"

definition empty_key :: regkey where
  "empty_key = \<lparr>kvalues = Map.empty, ksubkeys = []\<rparr>"

definition empty_registry :: "access \<Rightarrow> registry" where
  "empty_registry a = \<lparr>hklm = Map.empty, token = a\<rparr>"

definition registry_with :: "pystr \<Rightarrow> regkey \<Rightarrow> access \<Rightarrow> registry" where
  "registry_with n k a = \<lparr>hklm = [key_path n \<mapsto> k], token = a\<rparr>"

text \<open>The registry after a successful \<open>block_executable\<close>: the key of the name exists
  (created empty when it was absent) and holds the marker value.\<close>

definition set_marker :: "registry \<Rightarrow> pystr \<Rightarrow> registry" where
  "set_marker r n =
     r\<lparr>hklm := (hklm r)(key_path n \<mapsto>
          (case hklm r (key_path n) of None \<Rightarrow> \<lparr>kvalues = Map.empty, ksubkeys = []\<rparr> | Some k \<Rightarrow> k)
            \<lparr>kvalues := (kvalues (case hklm r (key_path n) of
                                     None \<Rightarrow> \<lparr>kvalues = Map.empty, ksubkeys = []\<rparr>
                                   | Some k \<Rightarrow> k))
                 (Debugger \<mapsto> \<lparr>vtype = REG_SZ, vdata = RegStr BLOCKER_CMD\<rparr>)\<rparr>)\<rparr>"

text \<open>A name whose last character is a line feed.\<close>

definition ends_with_line_feed :: "pystr \<Rightarrow> bool" where
  "ends_with_line_feed n = (n \<noteq> [] \<and> last n = 10)"

text \<open>A blocked key that cannot be deleted, since it has a sub-key.\<close>

definition key_with_subkey :: regkey where
  "key_with_subkey = \<lparr>kvalues = [Debugger \<mapsto> \<lparr>vtype = REG_SZ, vdata = RegStr BLOCKER_CMD\<rparr>],
                       ksubkeys = [pystr ''child'']\<rparr>"

section \<open>Evaluation on concrete names\<close>

lemmas validator_eval = validate_exe_name_def re_match_def name_char_def is_word_def
  ascii_alnum_def literal_matches_def lower_ascii_def pystr_def

lemma key_path_eq: "(key_path a = key_path b) = (a = b)"
  by (simp add: key_path_def)

lemma valid_browser: "validate_exe_name ua (pystr ''browser.exe'')"
  by (simp add: validator_eval)

lemma valid_ya: "validate_exe_name ua (pystr ''ya.exe'')"
  by (simp add: validator_eval)

lemma invalid_evil: "\<not> validate_exe_name ua (pystr ''evil'')"
  by (simp add: validator_eval)

section \<open>The three registry operations, case by case\<close>

lemma granted_write: "granted a KEY_ALL_ACCESS = (a = FullAccess)"
  by (cases a) auto

lemma granted_read: "granted a KEY_READ = (a \<noteq> Denied)"
  by (cases a) auto

lemma is_blocked_iff:
  "is_blocked ua r n = (validate_exe_name ua n \<and> token r \<noteq> Denied \<and> marker_present r n)"
  by (simp add: is_blocked_def OpenKey_def QueryValueEx_def get_registry_access_def
        marker_present_def granted_read split: option.splits)

lemma block_executable_eq:
  "block_executable ua r n =
     (if \<not> validate_exe_name ua n then (r, False, InvalidName n)
      else if token r \<noteq> FullAccess then (r, False, NoAdminBlock n)
      else (set_marker r n, True, Blocked n))"
  by (simp add: block_executable_def CreateKeyEx_def SetValueEx_def CloseKey_def
        get_registry_access_def granted_write set_marker_def split: option.splits)

lemma unblock_delete_value_eq:
  "unblock_delete_value r p =
     (case hklm r p of
        None \<Rightarrow> Inr r
      | Some k \<Rightarrow>
          if token r \<noteq> FullAccess then Inl (r, PermissionError)
          else (case kvalues k Debugger of
                  None \<Rightarrow> Inr r
                | Some v \<Rightarrow> Inr (r\<lparr>hklm := (hklm r)(p \<mapsto> k\<lparr>kvalues := (kvalues k)(Debugger := None)\<rparr>)\<rparr>)))"
  by (simp add: unblock_delete_value_def OpenKey_def DeleteValue_def CloseKey_def
        get_registry_access_def granted_write split: option.splits)

lemma unblock_executable_eq:
  "unblock_executable ua r n =
     (if \<not> validate_exe_name ua n then (r, False, InvalidName n)
      else (case hklm r (key_path n) of
              None \<Rightarrow> (r, True, Unblocked n)
            | Some k \<Rightarrow>
                if token r \<noteq> FullAccess then (r, False, NoAdminUnblock n)
                else if ksubkeys k = [] then (r\<lparr>hklm := (hklm r)(key_path n := None)\<rparr>, True, Unblocked n)
                else (case kvalues k Debugger of
                        None \<Rightarrow> (r, True, Unblocked n)
                      | Some v \<Rightarrow> (r\<lparr>hklm := (hklm r)(key_path n \<mapsto> k\<lparr>kvalues := (kvalues k)(Debugger := None)\<rparr>)\<rparr>,
                                   True, Unblocked n))))"
  by (simp add: unblock_executable_def unblock_delete_value_eq DeleteKey_def split: option.splits)

section \<open>The validator\<close>

lemma exe_literal: "pystr ''.exe'' = [46, 101, 120, 101]"
  by (simp add: pystr_def)

lemma match_suffix:
  "match_all True [LITERAL 46, LITERAL 101, LITERAL 120, LITERAL 101, AT_END] (p, t)
     = (\<exists>rest. map lower_ascii (take 4 t) = pystr ''.exe'' \<and> drop 4 t = rest \<and> (rest = [] \<or> rest = [10]))"
proof (cases t)
  case Nil
  then show ?thesis by (simp add: exe_literal)
next
  case t1: (Cons c1 t1)
  show ?thesis
  proof (cases t1)
    case Nil
    then show ?thesis using t1 by (simp add: exe_literal literal_matches_def)
  next
    case t2: (Cons c2 t2)
    show ?thesis
    proof (cases t2)
      case Nil
      then show ?thesis using t1 t2 by (simp add: exe_literal literal_matches_def)
    next
      case t3: (Cons c3 t3)
      show ?thesis
      proof (cases t3)
        case Nil
        then show ?thesis using t1 t2 t3 by (simp add: exe_literal literal_matches_def)
      next
        case t4: (Cons c4 t4)
        have l: "lower_ascii 46 = 46" "lower_ascii 101 = 101" "lower_ascii 120 = 120"
          by (simp_all add: lower_ascii_def)
        show ?thesis using t1 t2 t3 t4
          by (auto simp: exe_literal literal_matches_def l)
      qed
    qed
  qed
qed

lemma le_length_takeWhile:
  "(k \<le> length (takeWhile P s)) = (k \<le> length s \<and> list_all P (take k s))"
proof (induction s arbitrary: k)
  case Nil
  then show ?case by simp
next
  case (Cons c s)
  then show ?case by (cases k) auto
qed

lemma match_all_begin: "match_all ic (AT_BEGINNING # as) (0, s) = match_all ic as (0, s)"
  by simp

lemma match_all_repeat:
  "match_all ic (MAX_REPEAT_IN cls # as) (pos, s)
     = (\<exists>k. 1 \<le> k \<and> (k \<le> length s \<and> list_all cls (take k s)) \<and> match_all ic as (pos + k, drop k s))"
proof -
  have "match_all ic (MAX_REPEAT_IN cls # as) (pos, s)
      = (\<exists>k. 1 \<le> k \<and> k \<le> length (takeWhile cls s) \<and> match_all ic as (pos + k, drop k s))"
    by (auto simp: list_ex_iff simp del: upt_Suc)
  then show ?thesis by (simp add: le_length_takeWhile)
qed

lemma validate_exe_name_split:
  "validate_exe_name ua n =
     (\<exists>k. 1 \<le> k \<and> (k \<le> length n \<and> list_all (name_char ua) (take k n))
          \<and> (\<exists>rest. map lower_ascii (take 4 (drop k n)) = pystr ''.exe''
                \<and> drop 4 (drop k n) = rest \<and> (rest = [] \<or> rest = [10])))"
  unfolding validate_exe_name_def re_match_def
  by (simp only: match_all_begin match_all_repeat match_suffix)

lemma take4_exe_length: "map lower_ascii (take 4 t) = pystr ''.exe'' \<Longrightarrow> 4 \<le> length t"
proof -
  assume "map lower_ascii (take 4 t) = pystr ''.exe''"
  then have "length (map lower_ascii (take 4 t)) = length (pystr ''.exe'')" by simp
  then show ?thesis by (simp add: pystr_def)
qed

lemma validate_exe_name_iff:
  "validate_exe_name ua n =
     (exe_name_over (name_char ua) n \<or> (\<exists>m. n = m @ [10] \<and> exe_name_over (name_char ua) m))"
proof
  assume "validate_exe_name ua n"
  then obtain k where k: "1 \<le> k" "k \<le> length n" "list_all (name_char ua) (take k n)"
      and ext: "map lower_ascii (take 4 (drop k n)) = pystr ''.exe''"
      and rest: "drop 4 (drop k n) = [] \<or> drop 4 (drop k n) = [10]"
    unfolding validate_exe_name_split by blast
  from take4_exe_length [OF ext] have len: "k + 4 \<le> length n" by simp
  from rest show "exe_name_over (name_char ua) n \<or> (\<exists>m. n = m @ [10] \<and> exe_name_over (name_char ua) m)"
  proof
    assume "drop 4 (drop k n) = []"
    with len have "length n = k + 4" by simp
    then have kk: "k = length n - 4" by simp
    have "exe_name_over (name_char ua) n"
      unfolding exe_name_over_def using k ext len kk by auto
    then show ?thesis ..
  next
    assume r: "drop 4 (drop k n) = [10]"
    then have "length (drop 4 (drop k n)) = 1" by simp
    then have ln: "length n = k + 5" by simp
    have n: "n = take (k + 4) n @ drop (k + 4) n" by simp
    let ?m = "take (k + 4) n"
    have nm: "n = ?m @ [10]" using r n by (simp add: add.commute)
    have lm: "length ?m = k + 4" using ln by simp
    have "take (length ?m - 4) ?m = take k n" using lm by (simp add: min_def)
    moreover have "drop (length ?m - 4) ?m = take 4 (drop k n)"
      using lm by (simp add: drop_take)
    ultimately have "exe_name_over (name_char ua) ?m"
      unfolding exe_name_over_def using k ext lm by simp
    with nm show ?thesis by blast
  qed
next
  assume "exe_name_over (name_char ua) n \<or> (\<exists>m. n = m @ [10] \<and> exe_name_over (name_char ua) m)"
  then show "validate_exe_name ua n"
  proof
    assume e: "exe_name_over (name_char ua) n"
    let ?k = "length n - 4"
    from e have "1 \<le> ?k" "?k \<le> length n" "list_all (name_char ua) (take ?k n)"
      "map lower_ascii (take 4 (drop ?k n)) = pystr ''.exe''" "drop 4 (drop ?k n) = []"
      by (auto simp: exe_name_over_def)
    then show ?thesis unfolding validate_exe_name_split by blast
  next
    assume "\<exists>m. n = m @ [10] \<and> exe_name_over (name_char ua) m"
    then obtain m where n: "n = m @ [10]" and e: "exe_name_over (name_char ua) m" by blast
    let ?k = "length m - 4"
    from e have "1 \<le> ?k" "?k \<le> length n" "list_all (name_char ua) (take ?k n)"
      "map lower_ascii (take 4 (drop ?k n)) = pystr ''.exe''" "drop 4 (drop ?k n) = [10]"
      by (auto simp: exe_name_over_def n)
    then show ?thesis unfolding validate_exe_name_split by blast
  qed
qed

lemma name_char_ascii: "name_char ua c = (spec_class c \<or> (128 \<le> c \<and> ua c))"
  by (auto simp: name_char_def is_word_def spec_class_def ascii_alnum_def)

lemma validate_no_line_feed:
  "\<not> ends_with_line_feed n \<Longrightarrow> validate_exe_name ua n = exe_name_over (name_char ua) n"
  by (auto simp: validate_exe_name_iff ends_with_line_feed_def)

lemma exe_name_over_cong:
  "(\<And>c. c \<in> set n \<Longrightarrow> cls c = cls' c) \<Longrightarrow> exe_name_over cls n = exe_name_over cls' n"
proof -
  assume a: "\<And>c. c \<in> set n \<Longrightarrow> cls c = cls' c"
  have "list_all cls (take (length n - 4) n) = list_all cls' (take (length n - 4) n)"
    using a by (auto simp: list_all_iff dest: in_set_takeD)
  then show ?thesis by (simp add: exe_name_over_def)
qed

lemma exe_chars_in_class:
  assumes "map lower_ascii t = pystr ''.exe''" "c \<in> set t"
  shows "spec_class c"
proof -
  from assms(2) have "lower_ascii c \<in> set (map lower_ascii t)" by simp
  then have "lower_ascii c = 46 \<or> lower_ascii c = 101 \<or> lower_ascii c = 120"
    unfolding assms(1) by (auto simp: pystr_def)
  then show ?thesis
    by (auto simp: lower_ascii_def spec_class_def ascii_alnum_def split: if_splits)
qed

lemma exe_name_over_chars:
  assumes "exe_name_over (name_char ua) n" "c \<in> set n"
  shows "name_char ua c"
proof -
  have "n = take (length n - 4) n @ drop (length n - 4) n" by simp
  then have "set n = set (take (length n - 4) n) \<union> set (drop (length n - 4) n)"
    by (metis set_append)
  with assms(2) consider "c \<in> set (take (length n - 4) n)" | "c \<in> set (drop (length n - 4) n)"
    by blast
  then show ?thesis
  proof cases
    case 1
    with assms(1) show ?thesis by (simp add: exe_name_over_def list_all_iff)
  next
    case 2
    moreover from assms(1) have "map lower_ascii (drop (length n - 4) n) = pystr ''.exe''"
      by (simp add: exe_name_over_def)
    ultimately have "spec_class c"
      using exe_chars_in_class [of "drop (length n - 4) n" c] by blast
    then show ?thesis by (simp add: name_char_ascii)
  qed
qed

text \<open>
  C2, as the pattern reads with \<open>\w\<close>. The set of the pattern is wider than
  \<open>[A-Za-z0-9_.-]\<close>: \<open>\w\<close> also matches every alphanumeric code point above U+007F.
  A name with such a character and the suffix \<open>.exe\<close> is accepted, although it has a
  character outside \<open>[A-Za-z0-9_.-]\<close>.
\<close>

theorem validate_exe_name_counterexample:
  "validate_exe_name latin1_alnum (pystr ''caf'' @ [233] @ pystr ''.exe'')
   \<and> \<not> spec_class 233
   \<and> \<not> exe_name_over spec_class (pystr ''caf'' @ [233] @ pystr ''.exe'')"
  by (simp add: validator_eval latin1_alnum_def exe_name_over_def spec_class_def)

text \<open>
  C2, for names that do not end in a line feed. The validator accepts such a name iff it
  is one or more characters of the set \<open>[\w\-\.]\<close> followed by \<open>.exe\<close> in any letter
  case. The set is \<open>[A-Za-z0-9_.-]\<close> together with the alphanumeric code points above
  U+007F, so on ASCII names the validator accepts exactly the names of the form
  \<open>[A-Za-z0-9_.-]+\.exe\<close>; a name with a character outside the set (a path separator, a
  wildcard, a space, a semicolon) is refused, and so is a name without the suffix.
\<close>

theorem validate_exe_name_accepts:
  "(\<not> ends_with_line_feed n \<longrightarrow> validate_exe_name ua n = exe_name_over (name_char ua) n)
   \<and> name_char ua c = (spec_class c \<or> (128 \<le> c \<and> ua c))
   \<and> (\<not> ends_with_line_feed n \<and> list_all (\<lambda>c. c < 128) n \<longrightarrow>
        validate_exe_name ua n = exe_name_over spec_class n)
   \<and> (\<not> ends_with_line_feed n \<and> list_ex (\<lambda>c. \<not> name_char ua c) n \<longrightarrow> \<not> validate_exe_name ua n)"
proof -
  have ascii: "\<not> ends_with_line_feed n \<and> list_all (\<lambda>c. c < 128) n \<longrightarrow>
        validate_exe_name ua n = exe_name_over spec_class n"
  proof
    assume a: "\<not> ends_with_line_feed n \<and> list_all (\<lambda>c. c < 128) n"
    then have "\<And>c. c \<in> set n \<Longrightarrow> name_char ua c = spec_class c"
      by (auto simp: name_char_ascii list_all_iff)
    then have "exe_name_over (name_char ua) n = exe_name_over spec_class n"
      by (rule exe_name_over_cong)
    with a show "validate_exe_name ua n = exe_name_over spec_class n"
      by (simp add: validate_no_line_feed)
  qed
  have outside: "\<not> ends_with_line_feed n \<and> list_ex (\<lambda>c. \<not> name_char ua c) n \<longrightarrow> \<not> validate_exe_name ua n"
    using exe_name_over_chars [of ua n] by (auto simp: validate_no_line_feed list_ex_iff)
  from ascii outside show ?thesis
    using validate_no_line_feed [of n ua] name_char_ascii [of ua c] by blast
qed

text \<open>The names \<open>Yandex.Exe\<close> (accepted), \<open>../evil.exe\<close>, \<open>cmd.exe; rm\<close> and
  \<open>noextension\<close> (refused).\<close>

theorem validate_exe_name_accepts_witness:
  "validate_exe_name latin1_alnum (pystr ''Yandex.Exe'')
   \<and> \<not> validate_exe_name latin1_alnum (pystr ''../evil.exe'')
   \<and> \<not> validate_exe_name latin1_alnum (pystr ''cmd.exe; rm'')
   \<and> \<not> validate_exe_name latin1_alnum (pystr ''noextension'')"
proof -
  have 1: "validate_exe_name latin1_alnum (pystr ''Yandex.Exe'')"
    using validate_exe_name_accepts [THEN conjunct1, of "pystr ''Yandex.Exe''" latin1_alnum]
    by (simp add: ends_with_line_feed_def exe_name_over_def name_char_def is_word_def
          ascii_alnum_def lower_ascii_def pystr_def)
  have 2: "\<not> validate_exe_name latin1_alnum (pystr ''../evil.exe'')"
    using validate_exe_name_accepts [THEN conjunct2, THEN conjunct2, THEN conjunct2,
            of "pystr ''../evil.exe''" latin1_alnum]
    by (simp add: ends_with_line_feed_def name_char_def is_word_def ascii_alnum_def pystr_def)
  have 3: "\<not> validate_exe_name latin1_alnum (pystr ''cmd.exe; rm'')"
    using validate_exe_name_accepts [THEN conjunct2, THEN conjunct2, THEN conjunct2,
            of "pystr ''cmd.exe; rm''" latin1_alnum]
    by (simp add: ends_with_line_feed_def name_char_def is_word_def ascii_alnum_def pystr_def)
  have 4: "\<not> validate_exe_name latin1_alnum (pystr ''noextension'')"
    using validate_exe_name_accepts [THEN conjunct2, THEN conjunct2, THEN conjunct1,
            of "pystr ''noextension''" latin1_alnum]
    by (simp add: ends_with_line_feed_def exe_name_over_def spec_class_def ascii_alnum_def
          lower_ascii_def pystr_def)
  from 1 2 3 4 show ?thesis by simp
qed

text \<open>A line feed at the very end is let through by \<open>$\<close>.\<close>

lemma trailing_line_feed_accepted:
  "validate_exe_name ua (pystr ''browser.exe'' @ [10])"
  by (simp add: validator_eval)

section \<open>Blocking, unblocking and the status of one name\<close>

lemma token_set_marker: "token (set_marker r n) = token r"
  by (simp add: set_marker_def)

lemma marker_present_set_marker: "marker_present (set_marker r n) n"
  by (simp add: marker_present_def set_marker_def)

lemma set_marker_twice: "set_marker (set_marker r n) n = set_marker r n"
  by (simp add: set_marker_def)

lemma is_blocked_after_unblock:
  "fst (snd (unblock_executable ua r n)) \<Longrightarrow> \<not> is_blocked ua (fst (unblock_executable ua r n)) n"
  by (auto simp: unblock_executable_eq is_blocked_iff marker_present_def
        split: option.splits if_splits)

lemma unblock_twice:
  "fst (snd (unblock_executable ua r n)) \<Longrightarrow>
     unblock_executable ua (fst (unblock_executable ua r n)) n
       = (fst (unblock_executable ua r n), True, Unblocked n)"
  by (auto simp: unblock_executable_eq split: option.splits if_splits)

lemma invalid_notepad: "\<not> validate_exe_name ua (pystr ''notepad'')"
  by (simp add: validator_eval)

text \<open>
  C6, on a name the validator refuses. The key of the name \<open>notepad\<close> exists and holds
  the exact marker, the caller may read it, and \<open>is_blocked\<close> answers false: the name
  is refused before the registry is read.
\<close>

theorem is_blocked_exact_counterexample:
  "marker_present (registry_with (pystr ''notepad'') blocked_key FullAccess) (pystr ''notepad'')
   \<and> \<not> is_blocked latin1_alnum (registry_with (pystr ''notepad'') blocked_key FullAccess)
        (pystr ''notepad'')"
  by (simp add: is_blocked_iff invalid_notepad marker_present_def registry_with_def blocked_key_def)

text \<open>
  C6, with the validator and the read access in it. \<open>is_blocked\<close> answers true iff the
  name passes the validator, the caller may read the registry, and the key of the name
  exists, holds the marker value, and that value's data is exactly \<open>nul\<close>. It answers
  false when the key is absent, when the value is absent, when access is denied and when
  the name is refused. Every exception of the calls it makes is turned into false, and
  it makes no call that writes.
\<close>

theorem is_blocked_exact:
  "is_blocked ua r n = (validate_exe_name ua n \<and> token r \<noteq> Denied \<and> marker_present r n)
   \<and> (hklm r (key_path n) = None \<longrightarrow> \<not> is_blocked ua r n)
   \<and> ((\<exists>k. hklm r (key_path n) = Some k \<and> kvalues k Debugger = None) \<longrightarrow> \<not> is_blocked ua r n)
   \<and> (token r = Denied \<longrightarrow> \<not> is_blocked ua r n)
   \<and> (\<not> validate_exe_name ua n \<longrightarrow> \<not> is_blocked ua r n)"
  by (auto simp: is_blocked_iff marker_present_def)

text \<open>A blocked name read with read-only access; the same with access denied; an absent
  key; a key without the value.\<close>

theorem is_blocked_exact_witness:
  "is_blocked latin1_alnum (registry_with (pystr ''browser.exe'') blocked_key ReadOnly)
     (pystr ''browser.exe'')
   \<and> \<not> is_blocked latin1_alnum (registry_with (pystr ''browser.exe'') blocked_key Denied)
     (pystr ''browser.exe'')
   \<and> \<not> is_blocked latin1_alnum (empty_registry FullAccess) (pystr ''browser.exe'')
   \<and> \<not> is_blocked latin1_alnum (registry_with (pystr ''browser.exe'') empty_key FullAccess)
     (pystr ''browser.exe'')"
proof -
  let ?b = "pystr ''browser.exe''"
  have m: "marker_present (registry_with ?b blocked_key ReadOnly) ?b"
    by (simp add: marker_present_def registry_with_def blocked_key_def)
  have 1: "is_blocked latin1_alnum (registry_with ?b blocked_key ReadOnly) ?b"
    using is_blocked_exact [THEN conjunct1, of latin1_alnum "registry_with ?b blocked_key ReadOnly" ?b] m
    by (simp add: valid_browser registry_with_def)
  have 2: "\<not> is_blocked latin1_alnum (registry_with ?b blocked_key Denied) ?b"
    using is_blocked_exact [THEN conjunct2, THEN conjunct2, THEN conjunct2, THEN conjunct1,
            of "registry_with ?b blocked_key Denied" latin1_alnum ?b]
    by (simp add: registry_with_def)
  have 3: "\<not> is_blocked latin1_alnum (empty_registry FullAccess) ?b"
    using is_blocked_exact [THEN conjunct2, THEN conjunct1, of "empty_registry FullAccess" ?b latin1_alnum]
    by (simp add: empty_registry_def)
  have 4: "\<not> is_blocked latin1_alnum (registry_with ?b empty_key FullAccess) ?b"
    using is_blocked_exact [THEN conjunct2, THEN conjunct2, THEN conjunct1,
            of "registry_with ?b empty_key FullAccess" ?b latin1_alnum]
    by (simp add: registry_with_def empty_key_def)
  from 1 2 3 4 show ?thesis by blast
qed

text \<open>
  C1, without elevation. \<open>browser.exe\<close> is a valid name; a caller with read-only access
  runs \<open>block_executable\<close> on it, the key cannot be created, and \<open>is_blocked\<close> is false
  afterwards.
\<close>

theorem block_then_is_blocked_counterexample:
  "validate_exe_name latin1_alnum (pystr ''browser.exe'')
   \<and> \<not> is_blocked latin1_alnum
        (fst (block_executable latin1_alnum (empty_registry ReadOnly) (pystr ''browser.exe'')))
        (pystr ''browser.exe'')"
  by (simp add: valid_browser block_executable_eq empty_registry_def is_blocked_iff marker_present_def)

text \<open>
  C1, for calls that report success. Whenever \<open>block_executable\<close> returns success,
  \<open>is_blocked\<close> is true on the registry it leaves; whenever \<open>unblock_executable\<close>
  returns success, \<open>is_blocked\<close> is false on the registry it leaves. For a valid name
  and an elevated caller both calls return success.
\<close>

theorem block_then_is_blocked:
  "(fst (snd (block_executable ua r n)) \<longrightarrow> is_blocked ua (fst (block_executable ua r n)) n)
   \<and> (fst (snd (unblock_executable ua r n)) \<longrightarrow> \<not> is_blocked ua (fst (unblock_executable ua r n)) n)
   \<and> (validate_exe_name ua n \<and> token r = FullAccess \<longrightarrow>
        fst (snd (block_executable ua r n)) \<and> fst (snd (unblock_executable ua r n)))"
proof -
  have a: "fst (snd (block_executable ua r n)) \<longrightarrow> is_blocked ua (fst (block_executable ua r n)) n"
    by (simp add: block_executable_eq is_blocked_iff token_set_marker marker_present_set_marker)
  have b: "fst (snd (unblock_executable ua r n)) \<longrightarrow> \<not> is_blocked ua (fst (unblock_executable ua r n)) n"
    using is_blocked_after_unblock by blast
  have c: "validate_exe_name ua n \<and> token r = FullAccess \<longrightarrow>
        fst (snd (block_executable ua r n)) \<and> fst (snd (unblock_executable ua r n))"
    by (simp add: block_executable_eq unblock_executable_eq split: option.splits)
  from a b c show ?thesis by blast
qed

theorem block_then_is_blocked_witness:
  "is_blocked latin1_alnum
      (fst (block_executable latin1_alnum (empty_registry FullAccess) (pystr ''browser.exe'')))
      (pystr ''browser.exe'')
   \<and> \<not> is_blocked latin1_alnum
      (fst (unblock_executable latin1_alnum
              (registry_with (pystr ''browser.exe'') blocked_key FullAccess) (pystr ''browser.exe'')))
      (pystr ''browser.exe'')"
proof -
  let ?b = "pystr ''browser.exe''"
  have e1: "validate_exe_name latin1_alnum ?b \<and> token (empty_registry FullAccess) = FullAccess"
    by (simp add: valid_browser empty_registry_def)
  have e2: "validate_exe_name latin1_alnum ?b
      \<and> token (registry_with ?b blocked_key FullAccess) = FullAccess"
    by (simp add: valid_browser registry_with_def)
  from block_then_is_blocked [of latin1_alnum "empty_registry FullAccess" ?b] e1
  have 1: "is_blocked latin1_alnum (fst (block_executable latin1_alnum (empty_registry FullAccess) ?b)) ?b"
    by blast
  from block_then_is_blocked [of latin1_alnum "registry_with ?b blocked_key FullAccess" ?b] e2
  have 2: "\<not> is_blocked latin1_alnum
      (fst (unblock_executable latin1_alnum (registry_with ?b blocked_key FullAccess) ?b)) ?b"
    by blast
  from 1 2 show ?thesis by simp
qed

text \<open>
  C4, without elevation. The name is valid and already blocked; a caller with read-only
  access calls \<open>block_executable\<close> twice and the second call fails, as the first did.
\<close>

theorem block_unblock_idempotent_counterexample:
  "validate_exe_name latin1_alnum (pystr ''browser.exe'')
   \<and> is_blocked latin1_alnum (registry_with (pystr ''browser.exe'') blocked_key ReadOnly)
        (pystr ''browser.exe'')
   \<and> snd (block_executable latin1_alnum
        (fst (block_executable latin1_alnum
                (registry_with (pystr ''browser.exe'') blocked_key ReadOnly) (pystr ''browser.exe'')))
        (pystr ''browser.exe''))
     = (False, NoAdminBlock (pystr ''browser.exe''))"
  by (simp add: valid_browser block_executable_eq registry_with_def is_blocked_iff
        marker_present_def blocked_key_def)

text \<open>
  C4, after a first call that reports success. A second \<open>block_executable\<close> on the
  registry the first one left returns success, leaves that registry as it is, and
  \<open>is_blocked\<close> is true; a second \<open>unblock_executable\<close> after a successful first one
  returns success, leaves the registry as it is, and \<open>is_blocked\<close> is false.
\<close>

theorem block_unblock_idempotent:
  "(fst (snd (block_executable ua r n)) \<longrightarrow>
      block_executable ua (fst (block_executable ua r n)) n
        = (fst (block_executable ua r n), True, Blocked n)
      \<and> is_blocked ua (fst (block_executable ua r n)) n)
   \<and> (fst (snd (unblock_executable ua r n)) \<longrightarrow>
      unblock_executable ua (fst (unblock_executable ua r n)) n
        = (fst (unblock_executable ua r n), True, Unblocked n)
      \<and> \<not> is_blocked ua (fst (unblock_executable ua r n)) n)"
proof -
  have a: "fst (snd (block_executable ua r n)) \<longrightarrow>
      block_executable ua (fst (block_executable ua r n)) n
        = (fst (block_executable ua r n), True, Blocked n)
      \<and> is_blocked ua (fst (block_executable ua r n)) n"
    by (simp add: block_executable_eq is_blocked_iff token_set_marker marker_present_set_marker
          set_marker_twice)
  from a unblock_twice [of ua r n] is_blocked_after_unblock [of ua r n]
  show ?thesis by blast
qed

theorem block_unblock_idempotent_witness:
  "block_executable latin1_alnum
      (fst (block_executable latin1_alnum (empty_registry FullAccess) (pystr ''browser.exe'')))
      (pystr ''browser.exe'')
     = (fst (block_executable latin1_alnum (empty_registry FullAccess) (pystr ''browser.exe'')),
        True, Blocked (pystr ''browser.exe''))
   \<and> unblock_executable latin1_alnum
      (fst (unblock_executable latin1_alnum
              (registry_with (pystr ''browser.exe'') key_with_subkey FullAccess) (pystr ''browser.exe'')))
      (pystr ''browser.exe'')
     = (fst (unblock_executable latin1_alnum
              (registry_with (pystr ''browser.exe'') key_with_subkey FullAccess) (pystr ''browser.exe'')),
        True, Unblocked (pystr ''browser.exe''))"
proof -
  let ?b = "pystr ''browser.exe''"
  have s1: "fst (snd (block_executable latin1_alnum (empty_registry FullAccess) ?b))"
    by (simp add: block_executable_eq valid_browser empty_registry_def)
  have s2: "fst (snd (unblock_executable latin1_alnum (registry_with ?b key_with_subkey FullAccess) ?b))"
    by (simp add: unblock_executable_eq valid_browser registry_with_def key_with_subkey_def)
  from block_unblock_idempotent [of latin1_alnum "empty_registry FullAccess" ?b] s1
  have 1: "block_executable latin1_alnum
      (fst (block_executable latin1_alnum (empty_registry FullAccess) ?b)) ?b
     = (fst (block_executable latin1_alnum (empty_registry FullAccess) ?b), True, Blocked ?b)"
    by blast
  from block_unblock_idempotent [of latin1_alnum "registry_with ?b key_with_subkey FullAccess" ?b] s2
  have 2: "unblock_executable latin1_alnum
      (fst (unblock_executable latin1_alnum (registry_with ?b key_with_subkey FullAccess) ?b)) ?b
     = (fst (unblock_executable latin1_alnum (registry_with ?b key_with_subkey FullAccess) ?b),
        True, Unblocked ?b)"
    by blast
  from 1 2 show ?thesis by blast
qed

text \<open>
  C3, when there is nothing to remove. Without elevation, \<open>unblock_executable\<close> on a valid
  name whose key is absent returns success: the absent key is not an error and no call
  that needs write access is reached.
\<close>

theorem unelevated_mutations_counterexample:
  "token (empty_registry ReadOnly) \<noteq> FullAccess
   \<and> validate_exe_name latin1_alnum (pystr ''browser.exe'')
   \<and> unblock_executable latin1_alnum (empty_registry ReadOnly) (pystr ''browser.exe'')
     = (empty_registry ReadOnly, True, Unblocked (pystr ''browser.exe''))"
  by (simp add: valid_browser unblock_executable_eq empty_registry_def)

text \<open>
  C3, as the code has it. There is no elevation check in \<open>block_executable\<close> and
  \<open>unblock_executable\<close>; the first registry call is refused. Without elevation and for
  a valid name, \<open>block_executable\<close> returns failure with the no-administrator-rights
  message, \<open>unblock_executable\<close> does so whenever the key of the name exists and returns
  success when the key is absent, and in every case the registry is left exactly as it
  was.
\<close>

theorem unelevated_mutations:
  "token r \<noteq> FullAccess \<and> validate_exe_name ua n \<longrightarrow>
     block_executable ua r n = (r, False, NoAdminBlock n)
     \<and> fst (unblock_executable ua r n) = r
     \<and> (hklm r (key_path n) \<noteq> None \<longrightarrow> unblock_executable ua r n = (r, False, NoAdminUnblock n))
     \<and> (hklm r (key_path n) = None \<longrightarrow> unblock_executable ua r n = (r, True, Unblocked n))"
  by (auto simp: block_executable_eq unblock_executable_eq split: option.splits)

theorem unelevated_mutations_witness:
  "block_executable latin1_alnum (empty_registry ReadOnly) (pystr ''browser.exe'')
     = (empty_registry ReadOnly, False, NoAdminBlock (pystr ''browser.exe''))
   \<and> unblock_executable latin1_alnum
        (registry_with (pystr ''browser.exe'') blocked_key ReadOnly) (pystr ''browser.exe'')
     = (registry_with (pystr ''browser.exe'') blocked_key ReadOnly, False,
        NoAdminUnblock (pystr ''browser.exe''))
   \<and> fst (unblock_executable latin1_alnum (empty_registry ReadOnly) (pystr ''browser.exe''))
     = empty_registry ReadOnly"
proof -
  let ?b = "pystr ''browser.exe''"
  have h1: "token (empty_registry ReadOnly) \<noteq> FullAccess \<and> validate_exe_name latin1_alnum ?b"
    by (simp add: valid_browser empty_registry_def)
  have h2: "token (registry_with ?b blocked_key ReadOnly) \<noteq> FullAccess
      \<and> validate_exe_name latin1_alnum ?b"
    by (simp add: valid_browser registry_with_def)
  have present: "hklm (registry_with ?b blocked_key ReadOnly) (key_path ?b) \<noteq> None"
    by (simp add: registry_with_def)
  from unelevated_mutations [of "empty_registry ReadOnly" latin1_alnum ?b] h1
  have 1: "block_executable latin1_alnum (empty_registry ReadOnly) ?b
      = (empty_registry ReadOnly, False, NoAdminBlock ?b)"
    and 3: "fst (unblock_executable latin1_alnum (empty_registry ReadOnly) ?b) = empty_registry ReadOnly"
    by blast+
  from unelevated_mutations [of "registry_with ?b blocked_key ReadOnly" latin1_alnum ?b] h2 present
  have 2: "unblock_executable latin1_alnum (registry_with ?b blocked_key ReadOnly) ?b
      = (registry_with ?b blocked_key ReadOnly, False, NoAdminUnblock ?b)"
    by blast
  from 1 2 3 show ?thesis by blast
qed

text \<open>
  C8, without elevation. The key of a valid name exists and has no marker value; a
  caller with read-only access cannot open it for writing, and \<open>unblock_executable\<close>
  returns failure.
\<close>

theorem unblock_absence_is_success_counterexample:
  "validate_exe_name latin1_alnum (pystr ''browser.exe'')
   \<and> kvalues empty_key Debugger = None
   \<and> unblock_executable latin1_alnum
        (registry_with (pystr ''browser.exe'') empty_key ReadOnly) (pystr ''browser.exe'')
     = (registry_with (pystr ''browser.exe'') empty_key ReadOnly, False,
        NoAdminUnblock (pystr ''browser.exe''))"
  by (simp add: valid_browser unblock_executable_eq registry_with_def empty_key_def)

text \<open>
  C8, with the access the key needs. For a valid name, \<open>unblock_executable\<close> returns
  success when the key is absent, whoever calls; an elevated caller always gets success,
  whether or not the marker value is present; whenever the value step completes and
  \<open>DeleteKey\<close> then fails, with any error, the result is still success on the registry the
  value step left. The call fails only when the key exists and the caller is not
  elevated.
\<close>

theorem unblock_absence_is_success:
  "validate_exe_name ua n \<longrightarrow>
     (hklm r (key_path n) = None \<longrightarrow> unblock_executable ua r n = (r, True, Unblocked n))
     \<and> (token r = FullAccess \<longrightarrow> fst (snd (unblock_executable ua r n)))
     \<and> (\<forall>r1 e. unblock_delete_value r (key_path n) = Inr r1 \<and> DeleteKey r1 (key_path n) = Inl e
           \<longrightarrow> unblock_executable ua r n = (r1, True, Unblocked n))
     \<and> (fst (snd (unblock_executable ua r n)) = (hklm r (key_path n) = None \<or> token r = FullAccess))"
proof -
  have c: "\<forall>r1 e. validate_exe_name ua n \<and> unblock_delete_value r (key_path n) = Inr r1 \<and> DeleteKey r1 (key_path n) = Inl e
           \<longrightarrow> unblock_executable ua r n = (r1, True, Unblocked n)"
    by (simp add: unblock_executable_def)
  have rest: "validate_exe_name ua n \<longrightarrow>
     (hklm r (key_path n) = None \<longrightarrow> unblock_executable ua r n = (r, True, Unblocked n))
     \<and> (token r = FullAccess \<longrightarrow> fst (snd (unblock_executable ua r n)))
     \<and> (fst (snd (unblock_executable ua r n)) = (hklm r (key_path n) = None \<or> token r = FullAccess))"
    by (auto simp: unblock_executable_eq split: option.splits)
  from c rest show ?thesis by blast
qed

text \<open>An absent key without elevation; a key without the value; a key that cannot be
  deleted.\<close>

theorem unblock_absence_is_success_witness:
  "unblock_executable latin1_alnum (empty_registry ReadOnly) (pystr ''browser.exe'')
     = (empty_registry ReadOnly, True, Unblocked (pystr ''browser.exe''))
   \<and> fst (snd (unblock_executable latin1_alnum
        (registry_with (pystr ''browser.exe'') empty_key FullAccess) (pystr ''browser.exe'')))
   \<and> snd (unblock_executable latin1_alnum
        (registry_with (pystr ''browser.exe'') key_with_subkey FullAccess) (pystr ''browser.exe''))
     = (True, Unblocked (pystr ''browser.exe''))
   \<and> hklm (fst (unblock_executable latin1_alnum
        (registry_with (pystr ''browser.exe'') key_with_subkey FullAccess) (pystr ''browser.exe'')))
        (key_path (pystr ''browser.exe''))
     = Some \<lparr>kvalues = Map.empty, ksubkeys = [pystr ''child'']\<rparr>"
proof -
  let ?b = "pystr ''browser.exe''"
  let ?r = "registry_with ?b key_with_subkey FullAccess"
  have v: "validate_exe_name latin1_alnum ?b" by (rule valid_browser)
  have 1: "unblock_executable latin1_alnum (empty_registry ReadOnly) ?b
      = (empty_registry ReadOnly, True, Unblocked ?b)"
    using unblock_absence_is_success [of latin1_alnum ?b "empty_registry ReadOnly"] v
    by (simp add: empty_registry_def)
  have 2: "fst (snd (unblock_executable latin1_alnum (registry_with ?b empty_key FullAccess) ?b))"
    using unblock_absence_is_success [of latin1_alnum ?b "registry_with ?b empty_key FullAccess"] v
    by (simp add: registry_with_def)
  obtain r1 where value_step: "unblock_delete_value ?r (key_path ?b) = Inr r1"
      and kept: "hklm r1 (key_path ?b) = Some \<lparr>kvalues = Map.empty, ksubkeys = [pystr ''child'']\<rparr>"
      and full: "token r1 = FullAccess"
    by (simp add: unblock_delete_value_eq registry_with_def key_with_subkey_def)
  have refused: "DeleteKey r1 (key_path ?b) = Inl PermissionError"
    by (simp add: DeleteKey_def kept)
  from unblock_absence_is_success [of latin1_alnum ?b ?r] v value_step refused
  have 3: "unblock_executable latin1_alnum ?r ?b = (r1, True, Unblocked ?b)"
    by blast
  from 1 2 3 kept show ?thesis by simp
qed

section \<open>Batch operations\<close>

lemma loop_block:
  "block_all_loop ua r xs ok msgs =
     (registry_after (block_executable ua) r xs,
      ok \<and> list_all fst (attempts (block_executable ua) r xs),
      msgs @ map snd (attempts (block_executable ua) r xs))"
proof (induction xs arbitrary: r ok msgs)
  case Nil
  then show ?case by simp
next
  case (Cons x xs)
  obtain r' s m where step: "block_executable ua r x = (r', s, m)"
    by (cases "block_executable ua r x") auto
  show ?case
    by (simp add: step Cons.IH)
qed

lemma loop_unblock:
  "unblock_all_loop ua r xs ok msgs =
     (registry_after (unblock_executable ua) r xs,
      ok \<and> list_all fst (attempts (unblock_executable ua) r xs),
      msgs @ map snd (attempts (unblock_executable ua) r xs))"
proof (induction xs arbitrary: r ok msgs)
  case Nil
  then show ?case by simp
next
  case (Cons x xs)
  obtain r' s m where step: "unblock_executable ua r x = (r', s, m)"
    by (cases "unblock_executable ua r x") auto
  show ?case
    by (simp add: step Cons.IH)
qed

lemma length_attempts: "length (attempts op r xs) = length xs"
  by (induction xs arbitrary: r) auto

lemma target_block: "target (snd (snd (block_executable ua r x))) = x"
  by (simp add: block_executable_eq)

lemma target_unblock: "target (snd (snd (unblock_executable ua r x))) = x"
  by (simp add: unblock_executable_eq split: option.splits)

lemma targets_attempts:
  "(\<And>r x. target (snd (snd (op r x))) = x) \<Longrightarrow> map (\<lambda>a. target (snd a)) (attempts op r xs) = xs"
  by (induction xs arbitrary: r) auto

text \<open>
  C5. \<open>block_all\<close> runs \<open>block_executable\<close> on every target, from left to right, each on
  the registry the previous one left, whatever the earlier outcomes were. It returns one
  message per target, in the order of the targets and each about its target, and its
  flag is true iff every one of these calls returned success. \<open>unblock_all\<close> does the
  same with \<open>unblock_executable\<close>.
\<close>

theorem batch_reports_every_target:
  "block_all ua r xs =
     (registry_after (block_executable ua) r xs,
      list_all fst (attempts (block_executable ua) r xs),
      map snd (attempts (block_executable ua) r xs))
   \<and> length (snd (snd (block_all ua r xs))) = length xs
   \<and> map target (snd (snd (block_all ua r xs))) = xs
   \<and> unblock_all ua r xs =
     (registry_after (unblock_executable ua) r xs,
      list_all fst (attempts (unblock_executable ua) r xs),
      map snd (attempts (unblock_executable ua) r xs))
   \<and> length (snd (snd (unblock_all ua r xs))) = length xs
   \<and> map target (snd (snd (unblock_all ua r xs))) = xs"
  using targets_attempts [of "block_executable ua" r xs, OF target_block]
        targets_attempts [of "unblock_executable ua" r xs, OF target_unblock]
  by (simp add: block_all_def unblock_all_def loop_block loop_unblock length_attempts comp_def)

text \<open>An elevated run over three targets whose second one is refused: three messages,
  the first and third targets blocked, the flag false.\<close>

theorem batch_reports_every_target_witness:
  "snd (block_all latin1_alnum (empty_registry FullAccess)
          [pystr ''browser.exe'', pystr ''evil'', pystr ''ya.exe''])
     = (False, [Blocked (pystr ''browser.exe''), InvalidName (pystr ''evil''),
                Blocked (pystr ''ya.exe'')])"
proof -
  let ?xs = "[pystr ''browser.exe'', pystr ''evil'', pystr ''ya.exe'']"
  have att: "attempts (block_executable latin1_alnum) (empty_registry FullAccess) ?xs
      = [(True, Blocked (pystr ''browser.exe'')), (False, InvalidName (pystr ''evil'')),
         (True, Blocked (pystr ''ya.exe''))]"
    by (simp add: block_executable_eq valid_browser valid_ya invalid_evil empty_registry_def
          set_marker_def)
  from batch_reports_every_target [of latin1_alnum "empty_registry FullAccess" ?xs]
  have "snd (block_all latin1_alnum (empty_registry FullAccess) ?xs)
      = (list_all fst (attempts (block_executable latin1_alnum) (empty_registry FullAccess) ?xs),
         map snd (attempts (block_executable latin1_alnum) (empty_registry FullAccess) ?xs))"
    by simp
  then show ?thesis unfolding att by simp
qed

section \<open>Status queries\<close>

lemma get_status_fold:
  "foldl (\<lambda>d exe. d(exe \<mapsto> f exe)) d0 xs x = (if x \<in> set xs then Some (f x) else d0 x)"
  by (induction xs arbitrary: d0) auto

lemma get_status_entry:
  "get_status ua r xs x = (if x \<in> set xs then Some (is_blocked ua r x) else None)"
  by (simp add: get_status_def get_status_fold)

lemma sum_list_ones: "sum_list (map (\<lambda>x. 1::int) xs) = int (length xs)"
  by (induction xs) auto

text \<open>
  C9. For every list of targets, \<open>get_blocked_count\<close> is the number of targets of the
  list whose entry in \<open>get_status\<close> is true, and \<open>is_any_blocked\<close> is true iff some
  entry of \<open>get_status\<close> is true. On the empty list the count is 0 and
  \<open>is_any_blocked\<close> is false.
\<close>

theorem status_queries_consistent:
  "get_blocked_count ua r xs = int (length (filter (\<lambda>x. get_status ua r xs x = Some True) xs))
   \<and> is_any_blocked ua r xs = (\<exists>x. get_status ua r xs x = Some True)
   \<and> get_blocked_count ua r [] = 0
   \<and> is_any_blocked ua r [] = False"
proof -
  have same: "filter (\<lambda>x. get_status ua r xs x = Some True) xs = filter (\<lambda>x. is_blocked ua r x) xs"
    by (rule filter_cong) (simp_all add: get_status_entry)
  have count: "get_blocked_count ua r xs
      = int (length (filter (\<lambda>x. get_status ua r xs x = Some True) xs))"
    unfolding same by (simp add: get_blocked_count_def sum_list_ones)
  have some: "is_any_blocked ua r xs = (\<exists>x. get_status ua r xs x = Some True)"
    by (auto simp: is_any_blocked_def list_ex_iff get_status_entry)
  show ?thesis
    using count some by (simp add: get_blocked_count_def is_any_blocked_def)
qed

text \<open>Two targets, the first one blocked: one true entry, counted once.\<close>

theorem status_queries_consistent_witness:
  "int (length (filter (\<lambda>x. get_status latin1_alnum
                              (registry_with (pystr ''browser.exe'') blocked_key FullAccess)
                              [pystr ''browser.exe'', pystr ''ya.exe''] x = Some True)
                 [pystr ''browser.exe'', pystr ''ya.exe''])) = 1
   \<and> (\<exists>x. get_status latin1_alnum (registry_with (pystr ''browser.exe'') blocked_key FullAccess)
             [pystr ''browser.exe'', pystr ''ya.exe''] x = Some True)"
proof -
  let ?r = "registry_with (pystr ''browser.exe'') blocked_key FullAccess"
  let ?xs = "[pystr ''browser.exe'', pystr ''ya.exe'']"
  have differ: "pystr ''ya.exe'' \<noteq> pystr ''browser.exe''"
    by (simp add: pystr_def)
  have b1: "is_blocked latin1_alnum ?r (pystr ''browser.exe'')"
    by (simp add: is_blocked_iff valid_browser marker_present_def registry_with_def blocked_key_def)
  have b2: "\<not> is_blocked latin1_alnum ?r (pystr ''ya.exe'')"
    by (simp add: is_blocked_iff marker_present_def registry_with_def key_path_eq differ)
  have count: "get_blocked_count latin1_alnum ?r ?xs = 1"
    by (simp add: get_blocked_count_def b1 b2)
  have some: "is_any_blocked latin1_alnum ?r ?xs"
    by (simp add: is_any_blocked_def b1)
  from status_queries_consistent [of latin1_alnum ?r ?xs] count some
  show ?thesis by simp
qed

section \<open>The process classifier\<close>

lemma starts_with_iff: "starts_with needle s = (\<exists>after. s = needle @ after)"
  by (induction needle s rule: starts_with.induct) auto

lemma py_in_iff: "py_in needle hay = occurs_in needle hay"
proof (induction hay)
  case Nil
  then show ?case by (auto simp: occurs_in_def)
next
  case (Cons c cs)
  have "occurs_in needle (c # cs) = ((\<exists>after. c # cs = needle @ after) \<or> occurs_in needle cs)"
  proof
    assume "occurs_in needle (c # cs)"
    then obtain before after where h: "c # cs = before @ needle @ after"
      unfolding occurs_in_def by blast
    show "(\<exists>after. c # cs = needle @ after) \<or> occurs_in needle cs"
    proof (cases before)
      case Nil
      with h show ?thesis by auto
    next
      case (Cons b bs)
      with h have "cs = bs @ needle @ after" by simp
      then show ?thesis unfolding occurs_in_def by blast
    qed
  next
    assume "(\<exists>after. c # cs = needle @ after) \<or> occurs_in needle cs"
    then show "occurs_in needle (c # cs)"
    proof
      assume "\<exists>after. c # cs = needle @ after"
      then obtain after where "c # cs = [] @ needle @ after" by auto
      then show ?thesis unfolding occurs_in_def by blast
    next
      assume "occurs_in needle cs"
      then obtain before after where "cs = before @ needle @ after"
        unfolding occurs_in_def by blast
      then have "c # cs = (c # before) @ needle @ after" by simp
      then show ?thesis unfolding occurs_in_def by blast
    qed
  qed
  with Cons show ?case by (simp add: starts_with_iff)
qed

lemmas classifier_eval = YANDEX_INDICATORS_def pystr_def py_lower_def lower_ascii_def or_else_def

text \<open>
  C7, on the declared name. The declared name is lower-cased before it is compared: a
  process named \<open>Browser.exe\<close>, whose path has no indicator and whose arguments have
  one, is matched although its declared name is not \<open>browser.exe\<close>.
\<close>

theorem classifier_matches_iff_counterexample:
  "is_yandex_browser latin1_lower
      \<lparr>info_pid = Some 815, info_name = Some (pystr ''Browser.exe''),
         info_exe = Some (pystr ''C:/Tools/Browser.exe''),
         info_cmdline = Some [pystr ''Browser.exe'', pystr ''--profile=yandex'']\<rparr>
   \<and> pystr ''Browser.exe'' \<noteq> pystr ''browser.exe''
   \<and> \<not> list_ex (\<lambda>indicator. py_in indicator (py_lower latin1_lower (pystr ''C:/Tools/Browser.exe'')))
          YANDEX_INDICATORS"
  by (simp add: is_yandex_browser_def classifier_eval)

text \<open>
  C7, with the lower-cased name. A process is matched iff its lower-cased path contains
  one of the indicators \<open>yandex\<close>, \<open>yabrowser\<close>, \<open>yandexbrowser\<close>, whatever its
  declared name, or its lower-cased declared name is \<open>browser.exe\<close> and the lower-cased
  argument vector, joined with spaces, contains an indicator. Absent fields count as
  empty.
\<close>

theorem classifier_matches_iff:
  "is_yandex_browser ul info =
     ((\<exists>indicator \<in> set YANDEX_INDICATORS.
          occurs_in indicator (py_lower ul (or_else (info_exe info) [])))
      \<or> (py_lower ul (or_else (info_name info) []) = pystr ''browser.exe''
          \<and> (\<exists>indicator \<in> set YANDEX_INDICATORS.
                occurs_in indicator
                  (py_lower ul (py_join (pystr '' '') (or_else (info_cmdline info) []))))))"
  by (simp add: is_yandex_browser_def Let_def list_ex_iff py_in_iff)

text \<open>A path with an indicator under another name; the host name with an indicator in
  the arguments; the host name with unrelated arguments.\<close>

theorem classifier_matches_iff_witness:
  "is_yandex_browser latin1_lower
      \<lparr>info_pid = Some 812, info_name = Some (pystr ''service_update.exe''),
         info_exe = Some (pystr ''C:/Program Files/Yandex/YandexBrowser/service_update.exe''),
         info_cmdline = None\<rparr>
   \<and> is_yandex_browser latin1_lower
      \<lparr>info_pid = Some 813, info_name = Some (pystr ''browser.exe''), info_exe = None,
         info_cmdline = Some [pystr ''browser.exe'', pystr ''--type=renderer'',
                               pystr ''--user-id=YaBrowser-7'']\<rparr>
   \<and> \<not> is_yandex_browser latin1_lower
      \<lparr>info_pid = Some 814, info_name = Some (pystr ''browser.exe''),
         info_exe = Some (pystr ''C:/Tools/browser.exe''),
         info_cmdline = Some [pystr ''browser.exe'', pystr ''--type=renderer'']\<rparr>"
  unfolding classifier_matches_iff
  by (simp add: py_in_iff [symmetric] classifier_eval)

lemma or_else_simps: "or_else None d = d" "or_else (Some []) d = d"
  by (simp_all add: or_else_def)

lemma py_lower_Nil: "py_lower ul [] = []"
  by (simp add: py_lower_def)

text \<open>
  C10. The classifier is a total function into the booleans on process records whose
  fields may be absent: every operation it applies is defined on the value it is applied
  to, since \<open>or\<close> replaces \<open>None\<close> before \<open>lower\<close> and \<open>join\<close> are called. An absent
  declared name, path or argument vector gives the same answer as the empty one, and a
  record with all three absent does not match.
\<close>

theorem classifier_total_on_missing_fields:
  "(info_name info = None \<longrightarrow>
      is_yandex_browser ul info = is_yandex_browser ul (info\<lparr>info_name := Some []\<rparr>))
   \<and> (info_exe info = None \<longrightarrow>
      is_yandex_browser ul info = is_yandex_browser ul (info\<lparr>info_exe := Some []\<rparr>))
   \<and> (info_cmdline info = None \<longrightarrow>
      is_yandex_browser ul info = is_yandex_browser ul (info\<lparr>info_cmdline := Some []\<rparr>))
   \<and> (info_name info = None \<and> info_exe info = None \<and> info_cmdline info = None \<longrightarrow>
      \<not> is_yandex_browser ul info)"
  by (simp add: is_yandex_browser_def or_else_simps py_lower_Nil YANDEX_INDICATORS_def pystr_def)

theorem classifier_total_on_missing_fields_witness:
  "is_yandex_browser latin1_lower
      \<lparr>info_pid = Some 4, info_name = None, info_exe = None, info_cmdline = None\<rparr> = False
   \<and> is_yandex_browser latin1_lower
        \<lparr>info_pid = Some 4, info_name = None, info_exe = Some (pystr ''C:/Yandex/app.exe''),
           info_cmdline = None\<rparr>
     = is_yandex_browser latin1_lower
        \<lparr>info_pid = Some 4, info_name = Some [], info_exe = Some (pystr ''C:/Yandex/app.exe''),
           info_cmdline = None\<rparr>"
proof -
  let ?p = "\<lparr>info_pid = Some 4, info_name = None, info_exe = None, info_cmdline = None\<rparr>"
  let ?q = "\<lparr>info_pid = Some 4, info_name = None, info_exe = Some (pystr ''C:/Yandex/app.exe''),
             info_cmdline = None\<rparr>"
  have none: "\<not> is_yandex_browser latin1_lower ?p"
    using classifier_total_on_missing_fields
            [THEN conjunct2, THEN conjunct2, THEN conjunct2, of ?p latin1_lower]
    by simp
  have name: "is_yandex_browser latin1_lower ?q
      = is_yandex_browser latin1_lower (?q\<lparr>info_name := Some []\<rparr>)"
    using classifier_total_on_missing_fields [THEN conjunct1, of ?q latin1_lower]
    by simp
  from none name show ?thesis by simp
qed

end
